theory Spec2Isabelle
  imports Main "HOL-Library.Multiset" "HOL-Library.Word" "HOL-Library.List_Lexorder"
    "HOL-Library.Char_ord"
begin

unbundle bit_operations_syntax

section \<open>Run report (package report)\<close>

subsection \<open>Data model\<close>

text \<open>
  A \<^verbatim>\<open>time.Time\<close> is represented by its instant: the number of nanoseconds since the
  zero value of the type (January 1, year 1, 00:00 UTC), so the zero \<^verbatim>\<open>Time\<close> is 0.
  \<^verbatim>\<open>Before\<close>, \<^verbatim>\<open>After\<close> and \<^verbatim>\<open>Compare\<close> order instants. A \<^verbatim>\<open>time.Duration\<close> is a signed
  64-bit count of nanoseconds, and \<^verbatim>\<open>Time.Sub\<close> saturates at its bounds.
\<close>

type_synonym Time = int
type_synonym Duration = int

definition Before :: "Time \<Rightarrow> Time \<Rightarrow> bool" where
  "Before t u = (t < u)"

definition After :: "Time \<Rightarrow> Time \<Rightarrow> bool" where
  "After t u = (t > u)"


definition minDuration :: Duration where
  "minDuration = - (2 ^ 63)"

definition maxDuration :: Duration where
  "maxDuration = 2 ^ 63 - 1"

definition Sub :: "Time \<Rightarrow> Time \<Rightarrow> Duration" where
  "Sub t u = (if minDuration \<le> t - u \<and> t - u \<le> maxDuration then t - u
              else if Before t u then minDuration else maxDuration)"

type_synonym Result = string
type_synonym Reason = string
type_synonym Cause = string

text \<open>
  The source holds runs by pointer (\<^verbatim>\<open>[]*Run\<close>). The report's own operations never store
  one pointer twice (\<^verbatim>\<open>AddRun\<close> rejects a repeated name), so a list of run values
  represents the same states.
\<close>

record Run =
  Started :: Time
  Ended :: Time
  Reason :: "Reason option"
  Cause :: "Cause option"
  Name :: string
  Result :: Result

record Report =
  Runs :: "Run list"
  shouldColor :: bool

datatype error =
    ErrPathMustBeAbsolute
  | ErrRunAlreadyExists string
  | ErrRunNotFound string
  | ErrIO string
  | ErrWrap string error

definition NewReport :: Report where
  "NewReport = \<lparr>Runs = [], shouldColor = True\<rparr>"

text \<open>\<^verbatim>\<open>filepath.IsAbs\<close> on a Unix system: the path starts with a slash.\<close>

fun IsAbs :: "string \<Rightarrow> bool" where
  "IsAbs [] = False"
| "IsAbs (c # cs) = (c = CHR ''/'')"

definition NewRun :: "Time \<Rightarrow> string \<Rightarrow> error + Run" where
  "NewRun now path =
     (if \<not> IsAbs path then Inl ErrPathMustBeAbsolute
      else Inr \<lparr>Started = now, Ended = 0, Reason = None, Cause = None,
                Name = path, Result = []\<rparr>)"

subsection \<open>AddRun\<close>

text \<open>The loop of \<^verbatim>\<open>AddRun\<close> over the existing runs: is one of them named like the new run?\<close>

fun runExists :: "Run list \<Rightarrow> string \<Rightarrow> bool" where
  "runExists [] n = False"
| "runExists (existingRun # rest) n = (if Name existingRun = n then True else runExists rest n)"

definition AddRun :: "Report \<Rightarrow> Run \<Rightarrow> error + Report" where
  "AddRun r run =
     (if runExists (Runs r) (Name run) then Inl (ErrRunAlreadyExists (Name run))
      else Inr (r\<lparr>Runs := Runs r @ [run]\<rparr>))"

text \<open>
  A sequence of \<^verbatim>\<open>AddRun\<close> calls on one report; a call that fails leaves the report as
  it was and the caller goes on.
\<close>

fun AddRuns :: "Report \<Rightarrow> Run list \<Rightarrow> Report" where
  "AddRuns r [] = r"
| "AddRuns r (run # rest) =
     (case AddRun r run of Inl e \<Rightarrow> AddRuns r rest | Inr r' \<Rightarrow> AddRuns r' rest)"

subsection \<open>Properties of AddRun\<close>

lemma runExists_iff: "runExists rs n \<longleftrightarrow> n \<in> set (map Name rs)"
  by (induction rs) auto

lemma AddRun_keeps_distinct:
  assumes "distinct (map Name (Runs r))" and "AddRun r run = Inr r'"
  shows "distinct (map Name (Runs r'))"
  using assms by (auto simp: AddRun_def runExists_iff split: if_splits)

lemma AddRuns_keeps_distinct:
  "distinct (map Name (Runs r)) \<Longrightarrow> distinct (map Name (Runs (AddRuns r rs)))"
proof (induction rs arbitrary: r)
  case Nil
  then show ?case by simp
next
  case (Cons run rest)
  show ?case
  proof (cases "AddRun r run")
    case (Inl e)
    with Cons show ?thesis by simp
  next
    case (Inr r')
    with Cons AddRun_keeps_distinct [OF Cons.prems Inr] show ?thesis by simp
  qed
qed

text \<open>
  C1. \<^verbatim>\<open>AddRun\<close> fails with \<^verbatim>\<open>RunAlreadyExists\<close> exactly when the report already holds a
  run of the same name, and otherwise appends the run at the end of the run list. Hence
  names stay pairwise different: after any sequence of \<^verbatim>\<open>AddRun\<close> calls on a new report
  (or on any report whose names are pairwise different) each name appears at most once.
\<close>

theorem C1_AddRun_unique_names:
  "AddRun R r =
     (if Name r \<in> set (map Name (Runs R)) then Inl (ErrRunAlreadyExists (Name r))
      else Inr (R\<lparr>Runs := Runs R @ [r]\<rparr>))
   \<and> distinct (map Name (Runs (AddRuns NewReport rs)))
   \<and> (distinct (map Name (Runs R)) \<longrightarrow> distinct (map Name (Runs (AddRuns R rs))))"
proof -
  have "distinct (map Name (Runs NewReport))"
    by (simp add: NewReport_def)
  then have "distinct (map Name (Runs (AddRuns NewReport rs)))"
    by (rule AddRuns_keeps_distinct)
  then show ?thesis
    by (simp add: AddRun_def runExists_iff AddRuns_keeps_distinct)
qed

theorem C1_AddRun_unique_names_witness:
  "distinct (map Name (Runs \<lparr>Runs = [\<lparr>Started = 5, Ended = 0, Reason = None, Cause = None,
       Name = ''/a'', Result = []\<rparr>], shouldColor = True\<rparr>))
   \<and> distinct (map Name (Runs (AddRuns
       \<lparr>Runs = [\<lparr>Started = 5, Ended = 0, Reason = None, Cause = None,
          Name = ''/a'', Result = []\<rparr>], shouldColor = True\<rparr>
       [\<lparr>Started = 7, Ended = 0, Reason = None, Cause = None, Name = ''/a'', Result = []\<rparr>,
        \<lparr>Started = 8, Ended = 0, Reason = None, Cause = None, Name = ''/b'', Result = []\<rparr>])))"
proof -
  let ?a = "\<lparr>Started = 5, Ended = 0, Reason = None, Cause = None, Name = ''/a'', Result = []\<rparr>"
  let ?R = "\<lparr>Runs = [?a], shouldColor = True\<rparr>"
  let ?rs = "[\<lparr>Started = 7, Ended = 0, Reason = None, Cause = None, Name = ''/a'', Result = []\<rparr>,
        \<lparr>Started = 8, Ended = 0, Reason = None, Cause = None, Name = ''/b'', Result = []\<rparr>]"
  have h: "distinct (map Name (Runs ?R))"
    by simp
  have "distinct (map Name (Runs ?R)) \<longrightarrow> distinct (map Name (Runs (AddRuns ?R ?rs)))"
    using C1_AddRun_unique_names [of ?R ?a ?rs] by (rule conjunct2 [THEN conjunct2])
  then have "distinct (map Name (Runs (AddRuns ?R ?rs)))"
    using h by (rule mp)
  with h show ?thesis
    by (intro conjI)
qed

subsection \<open>EndRun and its options\<close>

definition ResultSucceeded :: Result where
  "ResultSucceeded = ''succeeded''"

definition ResultFailed :: Result where
  "ResultFailed = ''failed''"

definition ResultEarlyExit :: Result where
  "ResultEarlyExit = ''early exit''"

definition ResultExcluded :: Result where
  "ResultExcluded = ''excluded''"

text \<open>An \<^verbatim>\<open>EndOption\<close> is a function that changes the run it is given.\<close>

type_synonym EndOption = "Run \<Rightarrow> Run"

definition WithResult :: "Result \<Rightarrow> EndOption" where
  "WithResult result = (\<lambda>run. run\<lparr>Result := result\<rparr>)"

definition WithReason :: "Reason \<Rightarrow> EndOption" where
  "WithReason reason = (\<lambda>run. run\<lparr>Reason := Some reason\<rparr>)"

definition withCause :: "string \<Rightarrow> EndOption" where
  "withCause name = (\<lambda>run. run\<lparr>Cause := Some name\<rparr>)"

definition WithCauseRetryBlock :: "string \<Rightarrow> EndOption" where
  "WithCauseRetryBlock name = withCause name"

definition WithCauseIgnoreBlock :: "string \<Rightarrow> EndOption" where
  "WithCauseIgnoreBlock name = withCause name"

definition WithCauseExcludeBlock :: "string \<Rightarrow> EndOption" where
  "WithCauseExcludeBlock name = withCause name"

definition WithCauseAncestorExit :: "string \<Rightarrow> EndOption" where
  "WithCauseAncestorExit name = withCause name"

text \<open>
  The search loop of \<^verbatim>\<open>EndRun\<close>: the position of the first run named \<open>path\<close>
  (the loop breaks at the first match), or \<open>None\<close> when the loop ends with \<^verbatim>\<open>run == nil\<close>.
\<close>

fun findRun :: "Run list \<Rightarrow> string \<Rightarrow> nat option" where
  "findRun [] path = None"
| "findRun (existingRun # rest) path =
     (if Name existingRun = path then Some 0
      else case findRun rest path of None \<Rightarrow> None | Some i \<Rightarrow> Some (Suc i))"

text \<open>The loop over the options: each is applied to the run, in the order given.\<close>

fun applyEndOptions :: "EndOption list \<Rightarrow> Run \<Rightarrow> Run" where
  "applyEndOptions [] run = run"
| "applyEndOptions (endOption # rest) run = applyEndOptions rest (endOption run)"

text \<open>
  \<^verbatim>\<open>EndRun\<close> returns its error (if any) together with the report it leaves behind;
  \<open>now\<close> is the reading of \<^verbatim>\<open>time.Now()\<close>.
\<close>

definition EndRun :: "Time \<Rightarrow> Report \<Rightarrow> string \<Rightarrow> EndOption list \<Rightarrow> error option \<times> Report" where
  "EndRun now r path endOptions =
     (if \<not> IsAbs path then (Some ErrPathMustBeAbsolute, r)
      else case findRun (Runs r) path of
        None \<Rightarrow> (Some (ErrRunNotFound path), r)
      | Some i \<Rightarrow>
          (let run = Runs r ! i;
               run = run\<lparr>Ended := now\<rparr>;
               run = run\<lparr>Result := ResultSucceeded\<rparr>;
               run = applyEndOptions endOptions run
           in (None, r\<lparr>Runs := (Runs r)[i := run]\<rparr>)))"

subsection \<open>Summaries\<close>

record Summary =
  firstRunStart :: "Time option"
  lastRunEnd :: "Time option"
  padder :: string
  TotalUnits :: int
  UnitsSucceeded :: int
  UnitsFailed :: int
  EarlyExits :: int
  Excluded :: int
  summaryShouldColor :: bool

definition Update :: "Summary \<Rightarrow> Run \<Rightarrow> Summary" where
  "Update s run =
     (let s = (if Result run = ResultSucceeded then s\<lparr>UnitsSucceeded := UnitsSucceeded s + 1\<rparr>
               else if Result run = ResultFailed then s\<lparr>UnitsFailed := UnitsFailed s + 1\<rparr>
               else if Result run = ResultEarlyExit then s\<lparr>EarlyExits := EarlyExits s + 1\<rparr>
               else if Result run = ResultExcluded then s\<lparr>Excluded := Excluded s + 1\<rparr>
               else s);
          s = (case firstRunStart s of
                 None \<Rightarrow> s\<lparr>firstRunStart := Some (Started run)\<rparr>
               | Some firstStart \<Rightarrow>
                   if Before (Started run) firstStart then s\<lparr>firstRunStart := Some (Started run)\<rparr>
                   else s);
          s = (case lastRunEnd s of
                 None \<Rightarrow> s\<lparr>lastRunEnd := Some (Ended run)\<rparr>
               | Some lastEnd \<Rightarrow>
                   if After (Ended run) lastEnd then s\<lparr>lastRunEnd := Some (Ended run)\<rparr>
                   else s)
      in s)"

fun UpdateAll :: "Summary \<Rightarrow> Run list \<Rightarrow> Summary" where
  "UpdateAll summary [] = summary"
| "UpdateAll summary (run # rest) = UpdateAll (Update summary run) rest"

text \<open>
  \<open>envPadder\<close> is the value of the environment variable
  \<^verbatim>\<open>TMP_UNDOCUMENTED_REPORT_PADDER\<close> (empty when unset).
\<close>

definition Summarize :: "string \<Rightarrow> Report \<Rightarrow> Summary" where
  "Summarize envPadder r =
     (let summary = \<lparr>firstRunStart = None, lastRunEnd = None, padder = '' '',
                      TotalUnits = int (length (Runs r)), UnitsSucceeded = 0, UnitsFailed = 0,
                      EarlyExits = 0, Excluded = 0, summaryShouldColor = shouldColor r\<rparr>;
          summary = (if envPadder \<noteq> [] then summary\<lparr>padder := envPadder\<rparr> else summary)
      in if length (Runs r) = 0 then summary else UpdateAll summary (Runs r))"

definition TotalDuration :: "Summary \<Rightarrow> Duration" where
  "TotalDuration s =
     (case firstRunStart s of
        None \<Rightarrow> 0
      | Some firstStart \<Rightarrow>
          (case lastRunEnd s of None \<Rightarrow> 0 | Some lastEnd \<Rightarrow> Sub lastEnd firstStart))"

subsection \<open>Properties of EndRun\<close>

text \<open>
  The options the package's constructors build: \<^verbatim>\<open>WithResult\<close>, \<^verbatim>\<open>WithReason\<close> and the
  four \<^verbatim>\<open>WithCause...\<close> wrappers of \<^verbatim>\<open>withCause\<close>.
\<close>

definition packageOption :: "Result + Reason + string \<Rightarrow> EndOption" where
  "packageOption = case_sum WithResult (case_sum WithReason withCause)"

lemma findRun_None: "findRun rs p = None \<longleftrightarrow> p \<notin> set (map Name rs)"
  by (induction rs) (auto split: option.splits)

lemma findRun_Some:
  "findRun rs p = Some i \<Longrightarrow>
     i < length rs \<and> Name (rs ! i) = p \<and> (\<forall>j<i. Name (rs ! j) \<noteq> p)"
proof (induction rs arbitrary: i)
  case Nil
  then show ?case by simp
next
  case (Cons r rs)
  show ?case
  proof (cases "Name r = p")
    case True
    with Cons.prems show ?thesis by simp
  next
    case False
    with Cons.prems obtain k where k: "findRun rs p = Some k" "i = Suc k"
      by (auto split: option.splits)
    from Cons.IH [OF k(1)] False k(2) show ?thesis
      by (auto simp: less_Suc_eq_0_disj)
  qed
qed

lemma applyEndOptions_append:
  "applyEndOptions (xs @ ys) run = applyEndOptions ys (applyEndOptions xs run)"
  by (induction xs arbitrary: run) simp_all

lemma packageOption_keeps:
  "Name (packageOption d run) = Name run \<and> Ended (packageOption d run) = Ended run"
  by (cases d rule: sum.exhaust [case_product sum.exhaust])
    (simp_all add: packageOption_def WithResult_def WithReason_def withCause_def split: sum.splits)

lemma applyEndOptions_package_keeps:
  "Name (applyEndOptions (map packageOption ds) run) = Name run
   \<and> Ended (applyEndOptions (map packageOption ds) run) = Ended run"
  by (induction ds arbitrary: run) (simp_all add: packageOption_keeps)

lemma applyEndOptions_no_WithResult:
  "Result (applyEndOptions (map (packageOption \<circ> Inr) es) run) = Result run"
proof (induction es arbitrary: run)
  case Nil
  then show ?case by simp
next
  case (Cons e es)
  have "Result ((packageOption \<circ> Inr) e run) = Result run"
    by (cases e) (simp_all add: packageOption_def WithReason_def withCause_def)
  with Cons show ?case by simp
qed

lemma applyEndOptions_last_WithResult:
  "Result (applyEndOptions (pre @ WithResult x # map (packageOption \<circ> Inr) es) run) = x"
  by (simp add: applyEndOptions_append applyEndOptions_no_WithResult WithResult_def)

text \<open>
  C6. For a path that is not absolute \<^verbatim>\<open>EndRun\<close> fails with \<^verbatim>\<open>PathMustBeAbsolute\<close>; for
  an absolute path that names no run it fails with \<^verbatim>\<open>RunNotFound\<close>; in both cases the
  report is returned as it was. Otherwise the first run of that name is replaced by the
  run with \<^verbatim>\<open>Ended = now\<close> and result \<^verbatim>\<open>succeeded\<close> to which all options have been applied
  in order, and no other run changes. With the package's options the end time stays \<open>now\<close>
  and the name is kept; the result is \<^verbatim>\<open>succeeded\<close> when no \<^verbatim>\<open>WithResult\<close> is among them,
  and the value of the last \<^verbatim>\<open>WithResult\<close> otherwise.
\<close>

theorem C6_EndRun:
  "(\<not> IsAbs p \<longrightarrow> EndRun now R p opts = (Some ErrPathMustBeAbsolute, R))
   \<and> (IsAbs p \<and> p \<notin> set (map Name (Runs R)) \<longrightarrow>
        EndRun now R p opts = (Some (ErrRunNotFound p), R))
   \<and> (IsAbs p \<and> p \<in> set (map Name (Runs R)) \<longrightarrow>
        (\<exists>i < length (Runs R). Name (Runs R ! i) = p \<and> (\<forall>j<i. Name (Runs R ! j) \<noteq> p)
           \<and> EndRun now R p opts =
               (None, R\<lparr>Runs := (Runs R)[i := applyEndOptions opts
                   ((Runs R ! i)\<lparr>Ended := now, Result := ''succeeded''\<rparr>)]\<rparr>)))
   \<and> Ended (applyEndOptions (map packageOption ds)
         (run\<lparr>Ended := now, Result := ''succeeded''\<rparr>)) = now
   \<and> Name (applyEndOptions (map packageOption ds)
         (run\<lparr>Ended := now, Result := ''succeeded''\<rparr>)) = Name run
   \<and> Result (applyEndOptions (map (packageOption \<circ> Inr) es)
         (run\<lparr>Ended := now, Result := ''succeeded''\<rparr>)) = ''succeeded''
   \<and> Result (applyEndOptions (pre @ WithResult x # map (packageOption \<circ> Inr) es)
         (run\<lparr>Ended := now, Result := ''succeeded''\<rparr>)) = x"
proof -
  have a: "\<not> IsAbs p \<longrightarrow> EndRun now R p opts = (Some ErrPathMustBeAbsolute, R)"
    by (simp add: EndRun_def)
  have b: "IsAbs p \<and> p \<notin> set (map Name (Runs R)) \<longrightarrow>
        EndRun now R p opts = (Some (ErrRunNotFound p), R)"
    using findRun_None [of "Runs R" p] by (auto simp: EndRun_def)
  have c: "IsAbs p \<and> p \<in> set (map Name (Runs R)) \<longrightarrow>
        (\<exists>i < length (Runs R). Name (Runs R ! i) = p \<and> (\<forall>j<i. Name (Runs R ! j) \<noteq> p)
           \<and> EndRun now R p opts =
               (None, R\<lparr>Runs := (Runs R)[i := applyEndOptions opts
                   ((Runs R ! i)\<lparr>Ended := now, Result := ''succeeded''\<rparr>)]\<rparr>))"
  proof
    assume h: "IsAbs p \<and> p \<in> set (map Name (Runs R))"
    then obtain i where i: "findRun (Runs R) p = Some i"
      using findRun_None [of "Runs R" p] by (cases "findRun (Runs R) p") auto
    from findRun_Some [OF i] h i show "\<exists>i < length (Runs R). Name (Runs R ! i) = p
        \<and> (\<forall>j<i. Name (Runs R ! j) \<noteq> p)
        \<and> EndRun now R p opts =
               (None, R\<lparr>Runs := (Runs R)[i := applyEndOptions opts
                   ((Runs R ! i)\<lparr>Ended := now, Result := ''succeeded''\<rparr>)]\<rparr>)"
      by (intro exI [of _ i]) (simp add: EndRun_def Let_def ResultSucceeded_def)
  qed
  have d: "Ended (applyEndOptions (map packageOption ds)
         (run\<lparr>Ended := now, Result := ''succeeded''\<rparr>)) = now"
    "Name (applyEndOptions (map packageOption ds)
         (run\<lparr>Ended := now, Result := ''succeeded''\<rparr>)) = Name run"
    by (simp_all add: applyEndOptions_package_keeps)
  have e: "Result (applyEndOptions (map (packageOption \<circ> Inr) es)
         (run\<lparr>Ended := now, Result := ''succeeded''\<rparr>)) = ''succeeded''"
    by (simp add: applyEndOptions_no_WithResult)
  have f: "Result (applyEndOptions (pre @ WithResult x # map (packageOption \<circ> Inr) es)
         (run\<lparr>Ended := now, Result := ''succeeded''\<rparr>)) = x"
    by (rule applyEndOptions_last_WithResult)
  from a b c d e f show ?thesis by (intro conjI)
qed


theorem C6_EndRun_witness:
  "EndRun 9 \<lparr>Runs = [\<lparr>Started = 5, Ended = 0, Reason = None, Cause = None, Name = ''/a'',
       Result = []\<rparr>], shouldColor = True\<rparr> ''a'' [] =
     (Some ErrPathMustBeAbsolute, \<lparr>Runs = [\<lparr>Started = 5, Ended = 0, Reason = None,
       Cause = None, Name = ''/a'', Result = []\<rparr>], shouldColor = True\<rparr>)
   \<and> EndRun 9 \<lparr>Runs = [\<lparr>Started = 5, Ended = 0, Reason = None, Cause = None, Name = ''/a'',
       Result = []\<rparr>], shouldColor = True\<rparr> ''/b'' [] =
     (Some (ErrRunNotFound ''/b''), \<lparr>Runs = [\<lparr>Started = 5, Ended = 0, Reason = None,
       Cause = None, Name = ''/a'', Result = []\<rparr>], shouldColor = True\<rparr>)
   \<and> EndRun 9 \<lparr>Runs = [\<lparr>Started = 5, Ended = 0, Reason = None, Cause = None, Name = ''/a'',
       Result = []\<rparr>], shouldColor = True\<rparr> ''/a'' [WithResult ''failed''] =
     (None, \<lparr>Runs = [\<lparr>Started = 5, Ended = 9, Reason = None,
       Cause = None, Name = ''/a'', Result = ''failed''\<rparr>], shouldColor = True\<rparr>)"
proof -
  let ?a = "\<lparr>Started = 5, Ended = 0, Reason = None, Cause = None, Name = ''/a'', Result = []\<rparr>"
  let ?R = "\<lparr>Runs = [?a], shouldColor = True\<rparr>"
  have "\<not> IsAbs ''a'' \<longrightarrow> EndRun 9 ?R ''a'' [] = (Some ErrPathMustBeAbsolute, ?R)"
    using C6_EndRun [of "''a''" 9 ?R "[]"] by (rule conjunct1)
  moreover have "\<not> IsAbs ''a''"
    by simp
  ultimately have a: "EndRun 9 ?R ''a'' [] = (Some ErrPathMustBeAbsolute, ?R)"
    by (rule mp)
  have "IsAbs ''/b'' \<and> ''/b'' \<notin> set (map Name (Runs ?R)) \<longrightarrow>
      EndRun 9 ?R ''/b'' [] = (Some (ErrRunNotFound ''/b''), ?R)"
    using C6_EndRun [of "''/b''" 9 ?R "[]"] by (rule conjunct2 [THEN conjunct1])
  moreover have "IsAbs ''/b'' \<and> ''/b'' \<notin> set (map Name (Runs ?R))"
    by simp
  ultimately have b: "EndRun 9 ?R ''/b'' [] = (Some (ErrRunNotFound ''/b''), ?R)"
    by (rule mp)
  have "IsAbs ''/a'' \<and> ''/a'' \<in> set (map Name (Runs ?R)) \<longrightarrow>
      (\<exists>i < length (Runs ?R). Name (Runs ?R ! i) = ''/a'' \<and> (\<forall>j<i. Name (Runs ?R ! j) \<noteq> ''/a'')
         \<and> EndRun 9 ?R ''/a'' [WithResult ''failed''] =
             (None, ?R\<lparr>Runs := (Runs ?R)[i := applyEndOptions [WithResult ''failed'']
                 ((Runs ?R ! i)\<lparr>Ended := 9, Result := ''succeeded''\<rparr>)]\<rparr>))"
    using C6_EndRun [of "''/a''" 9 ?R "[WithResult ''failed'']"]
    by (rule conjunct2 [THEN conjunct2, THEN conjunct1])
  moreover have "IsAbs ''/a'' \<and> ''/a'' \<in> set (map Name (Runs ?R))"
    by simp
  ultimately have "\<exists>i < length (Runs ?R). Name (Runs ?R ! i) = ''/a''
         \<and> (\<forall>j<i. Name (Runs ?R ! j) \<noteq> ''/a'')
         \<and> EndRun 9 ?R ''/a'' [WithResult ''failed''] =
             (None, ?R\<lparr>Runs := (Runs ?R)[i := applyEndOptions [WithResult ''failed'']
                 ((Runs ?R ! i)\<lparr>Ended := 9, Result := ''succeeded''\<rparr>)]\<rparr>)"
    by (rule mp)
  then have c: "EndRun 9 ?R ''/a'' [WithResult ''failed''] =
     (None, \<lparr>Runs = [\<lparr>Started = 5, Ended = 9, Reason = None,
       Cause = None, Name = ''/a'', Result = ''failed''\<rparr>], shouldColor = True\<rparr>)"
    by (auto simp: WithResult_def)
  from a b c show ?thesis by (intro conjI)
qed

subsection \<open>Properties of Summarize\<close>

lemma Update_fields:
  "TotalUnits (Update s run) = TotalUnits s"
  "padder (Update s run) = padder s"
  "summaryShouldColor (Update s run) = summaryShouldColor s"
  "UnitsSucceeded (Update s run) = UnitsSucceeded s + (if Result run = ResultSucceeded then 1 else 0)"
  "UnitsFailed (Update s run) = UnitsFailed s + (if Result run = ResultFailed then 1 else 0)"
  "EarlyExits (Update s run) = EarlyExits s + (if Result run = ResultEarlyExit then 1 else 0)"
  "Excluded (Update s run) = Excluded s + (if Result run = ResultExcluded then 1 else 0)"
  "firstRunStart (Update s run) =
     (case firstRunStart s of None \<Rightarrow> Some (Started run) | Some f \<Rightarrow> Some (min f (Started run)))"
  "lastRunEnd (Update s run) =
     (case lastRunEnd s of None \<Rightarrow> Some (Ended run) | Some l \<Rightarrow> Some (max l (Ended run)))"
  by (auto simp: Update_def Let_def Before_def After_def ResultSucceeded_def ResultFailed_def
      ResultEarlyExit_def ResultExcluded_def split: option.splits)


lemma UpdateAll_TotalUnits: "TotalUnits (UpdateAll s rs) = TotalUnits s"
  by (induction rs arbitrary: s) (simp_all add: Update_fields)

lemma UpdateAll_UnitsSucceeded:
  "UnitsSucceeded (UpdateAll s rs) =
     UnitsSucceeded s + int (length (filter (\<lambda>r. Result r = ResultSucceeded) rs))"
  by (induction rs arbitrary: s) (simp_all add: Update_fields)

lemma UpdateAll_UnitsFailed:
  "UnitsFailed (UpdateAll s rs) =
     UnitsFailed s + int (length (filter (\<lambda>r. Result r = ResultFailed) rs))"
  by (induction rs arbitrary: s) (simp_all add: Update_fields)

lemma UpdateAll_EarlyExits:
  "EarlyExits (UpdateAll s rs) =
     EarlyExits s + int (length (filter (\<lambda>r. Result r = ResultEarlyExit) rs))"
  by (induction rs arbitrary: s) (simp_all add: Update_fields)

lemma UpdateAll_Excluded:
  "Excluded (UpdateAll s rs) =
     Excluded s + int (length (filter (\<lambda>r. Result r = ResultExcluded) rs))"
  by (induction rs arbitrary: s) (simp_all add: Update_fields)

lemma UpdateAll_first_Some:
  "firstRunStart s = Some f \<Longrightarrow>
   firstRunStart (UpdateAll s rs) = Some (Min (insert f (set (map Started rs))))"
proof (induction rs arbitrary: s f)
  case Nil
  then show ?case by simp
next
  case (Cons r rs)
  have "firstRunStart (Update s r) = Some (min f (Started r))"
    using Cons.prems by (simp add: Update_fields)
  from Cons.IH [OF this]
  have "firstRunStart (UpdateAll s (r # rs)) = Some (Min (insert (min f (Started r)) (set (map Started rs))))"
    by simp
  also have "Min (insert (min f (Started r)) (set (map Started rs)))
      = Min (insert f (insert (Started r) (set (map Started rs))))"
    by (cases "rs = []") (simp_all add: min.assoc)
  finally show ?case by simp
qed

lemma UpdateAll_last_Some:
  "lastRunEnd s = Some l \<Longrightarrow>
   lastRunEnd (UpdateAll s rs) = Some (Max (insert l (set (map Ended rs))))"
proof (induction rs arbitrary: s l)
  case Nil
  then show ?case by simp
next
  case (Cons r rs)
  have "lastRunEnd (Update s r) = Some (max l (Ended r))"
    using Cons.prems by (simp add: Update_fields)
  from Cons.IH [OF this]
  have "lastRunEnd (UpdateAll s (r # rs)) = Some (Max (insert (max l (Ended r)) (set (map Ended rs))))"
    by simp
  also have "Max (insert (max l (Ended r)) (set (map Ended rs)))
      = Max (insert l (insert (Ended r) (set (map Ended rs))))"
    by (cases "rs = []") (simp_all add: max.assoc)
  finally show ?case by simp
qed

lemma UpdateAll_first_None:
  assumes "firstRunStart s = None"
  shows "firstRunStart (UpdateAll s rs) =
    (if rs = [] then None else Some (Min (set (map Started rs))))"
proof (cases rs)
  case Nil
  with assms show ?thesis by simp
next
  case (Cons r rest)
  from assms have "firstRunStart (Update s r) = Some (Started r)"
    by (simp add: Update_fields)
  from UpdateAll_first_Some [OF this, of rest] Cons show ?thesis by simp
qed

lemma UpdateAll_last_None:
  assumes "lastRunEnd s = None"
  shows "lastRunEnd (UpdateAll s rs) =
    (if rs = [] then None else Some (Max (set (map Ended rs))))"
proof (cases rs)
  case Nil
  with assms show ?thesis by simp
next
  case (Cons r rest)
  from assms have "lastRunEnd (Update s r) = Some (Ended r)"
    by (simp add: Update_fields)
  from UpdateAll_last_Some [OF this, of rest] Cons show ?thesis by simp
qed

lemma Sub_clamp: "Sub t u = max minDuration (min maxDuration (t - u))"
  by (auto simp: Sub_def Before_def minDuration_def maxDuration_def)

text \<open>
  C5 (as amended). The summary's total is the number of runs, each of the four counters
  is the number of runs with that result, the first start is the least \<^verbatim>\<open>Started\<close> and the
  last end the greatest \<^verbatim>\<open>Ended\<close> (both absent for an empty report), and the total
  duration is 0 for an empty report and otherwise last end minus first start, saturated
  to the range of a signed 64-bit count of nanoseconds.
\<close>

theorem C5_Summarize:
  "TotalUnits (Summarize envPadder R) = int (length (Runs R))
   \<and> UnitsSucceeded (Summarize envPadder R) =
       int (length (filter (\<lambda>r. Result r = ''succeeded'') (Runs R)))
   \<and> UnitsFailed (Summarize envPadder R) =
       int (length (filter (\<lambda>r. Result r = ''failed'') (Runs R)))
   \<and> EarlyExits (Summarize envPadder R) =
       int (length (filter (\<lambda>r. Result r = ''early exit'') (Runs R)))
   \<and> Excluded (Summarize envPadder R) =
       int (length (filter (\<lambda>r. Result r = ''excluded'') (Runs R)))
   \<and> firstRunStart (Summarize envPadder R) =
       (if Runs R = [] then None else Some (Min (set (map Started (Runs R)))))
   \<and> lastRunEnd (Summarize envPadder R) =
       (if Runs R = [] then None else Some (Max (set (map Ended (Runs R)))))
   \<and> TotalDuration (Summarize envPadder R) =
       (if Runs R = [] then 0
        else max (- (2 ^ 63)) (min (2 ^ 63 - 1)
               (Max (set (map Ended (Runs R))) - Min (set (map Started (Runs R))))))"
proof -
  let ?s0 = "\<lparr>firstRunStart = None, lastRunEnd = None, padder = '' '',
              TotalUnits = int (length (Runs R)), UnitsSucceeded = 0, UnitsFailed = 0,
              EarlyExits = 0, Excluded = 0, summaryShouldColor = shouldColor R\<rparr>"
  let ?s1 = "if envPadder \<noteq> [] then ?s0\<lparr>padder := envPadder\<rparr> else ?s0"
  have init: "firstRunStart ?s1 = None" "lastRunEnd ?s1 = None"
    "TotalUnits ?s1 = int (length (Runs R))" "UnitsSucceeded ?s1 = 0" "UnitsFailed ?s1 = 0"
    "EarlyExits ?s1 = 0" "Excluded ?s1 = 0"
    by simp_all
  have S: "Summarize envPadder R = UpdateAll ?s1 (Runs R)"
    by (cases "Runs R") (simp_all add: Summarize_def Let_def)
  have f: "firstRunStart (Summarize envPadder R) =
       (if Runs R = [] then None else Some (Min (set (map Started (Runs R)))))"
    unfolding S using UpdateAll_first_None [OF init(1)] .
  have l: "lastRunEnd (Summarize envPadder R) =
       (if Runs R = [] then None else Some (Max (set (map Ended (Runs R)))))"
    unfolding S using UpdateAll_last_None [OF init(2)] .
  have d: "TotalDuration (Summarize envPadder R) =
       (if Runs R = [] then 0
        else max (- (2 ^ 63)) (min (2 ^ 63 - 1)
               (Max (set (map Ended (Runs R))) - Min (set (map Started (Runs R))))))"
    by (simp add: TotalDuration_def f l Sub_clamp minDuration_def maxDuration_def)
  have c: "TotalUnits (Summarize envPadder R) = int (length (Runs R))"
    "UnitsSucceeded (Summarize envPadder R) =
       int (length (filter (\<lambda>r. Result r = ''succeeded'') (Runs R)))"
    "UnitsFailed (Summarize envPadder R) =
       int (length (filter (\<lambda>r. Result r = ''failed'') (Runs R)))"
    "EarlyExits (Summarize envPadder R) =
       int (length (filter (\<lambda>r. Result r = ''early exit'') (Runs R)))"
    "Excluded (Summarize envPadder R) =
       int (length (filter (\<lambda>r. Result r = ''excluded'') (Runs R)))"
    unfolding S
    by (simp_all only: UpdateAll_TotalUnits UpdateAll_UnitsSucceeded UpdateAll_UnitsFailed
        UpdateAll_EarlyExits UpdateAll_Excluded init ResultSucceeded_def ResultFailed_def
        ResultEarlyExit_def ResultExcluded_def add_0)
  from c f l d show ?thesis by (intro conjI)
qed

text \<open>
  C5 as stated fails: a run that has started (here in the year 2025) and has not ended has
  the zero time as its end, and the difference of about \<open>-2025\<close> years does not fit a
  \<^verbatim>\<open>Duration\<close>, so the total duration is the least \<^verbatim>\<open>Duration\<close>, not the difference.
\<close>

theorem C5_TotalDuration_counterexample:
  "TotalDuration (Summarize [] \<lparr>Runs = [\<lparr>Started = 63900000000000000000, Ended = 0,
       Reason = None, Cause = None, Name = ''/a'', Result = []\<rparr>], shouldColor = True\<rparr>)
     = - 9223372036854775808
   \<and> (0::int) - 63900000000000000000 \<noteq> - 9223372036854775808"
  by (simp add: Summarize_def TotalDuration_def Update_def Sub_def Before_def After_def
      minDuration_def maxDuration_def ResultSucceeded_def ResultFailed_def
      ResultEarlyExit_def ResultExcluded_def)

subsection \<open>Writers\<close>

text \<open>
  An \<^verbatim>\<open>io.Writer\<close> is represented by the bytes it has taken and by the number of further
  \<^verbatim>\<open>Write\<close> calls it accepts before it starts to fail (\<open>None\<close>: it never fails). A
  call that fails adds nothing.
\<close>

record Writer =
  written :: string
  accepts :: "nat option"

definition ioWrite :: "Writer \<Rightarrow> string \<Rightarrow> error option \<times> Writer" where
  "ioWrite w s =
     (case accepts w of
        None \<Rightarrow> (None, w\<lparr>written := written w @ s\<rparr>)
      | Some 0 \<Rightarrow> (Some (ErrIO ''write failed''), w)
      | Some (Suc n) \<Rightarrow> (None, w\<lparr>written := written w @ s, accepts := Some n\<rparr>))"

subsection \<open>Library functions used by the summary\<close>

definition len :: "string \<Rightarrow> int" where
  "len s = int (length s)"

definition maxInt :: int where
  "maxInt = 2 ^ 63 - 1"

text \<open>
  \<^verbatim>\<open>strings.Repeat\<close> panics on a negative count and when the length of the result
  overflows; a panic is the left summand, with its message.
\<close>

definition Repeat :: "string \<Rightarrow> int \<Rightarrow> string + string" where
  "Repeat s cnt =
     (if cnt < 0 then Inl ''strings: negative Repeat count''
      else if len s * cnt > maxInt then Inl ''strings: Repeat output length overflow''
      else Inr (concat (replicate (nat cnt) s)))"

text \<open>\<^verbatim>\<open>slices.Max\<close> panics on an empty slice.\<close>

fun slicesMax :: "int list \<Rightarrow> string + int" where
  "slicesMax [] = Inl ''slices.Max: empty list''"
| "slicesMax (x # xs) = Inr (fold max xs x)"

text \<open>Integer division of Go: the quotient is truncated toward zero.\<close>

definition quo :: "int \<Rightarrow> int \<Rightarrow> int" where
  "quo a b = sgn a * sgn b * (\<bar>a\<bar> div \<bar>b\<bar>)"

function decimal :: "nat \<Rightarrow> string" where
  "decimal n = (if n < 10 then [char_of (48 + n)] else decimal (n div 10) @ [char_of (48 + n mod 10)])"
  by pat_completeness auto
termination
  by (relation "measure id") auto

definition Itoa :: "int \<Rightarrow> string" where
  "Itoa i = (if i < 0 then CHR ''-'' # decimal (nat (- i)) else decimal (nat i))"

subsection \<open>Rendering a summary\<close>

record Colorizer =
  headingColorizer :: "string \<Rightarrow> string"
  successColorizer :: "string \<Rightarrow> string"
  failureColorizer :: "string \<Rightarrow> string"
  exitColorizer :: "string \<Rightarrow> string"
  excludeColorizer :: "string \<Rightarrow> string"
  microsecondColorizer :: "string \<Rightarrow> string"
  millisecondColorizer :: "string \<Rightarrow> string"
  secondColorizer :: "string \<Rightarrow> string"
  minuteColorizer :: "string \<Rightarrow> string"
  defaultColorizer :: "string \<Rightarrow> string"

text \<open>
  What the rendering takes from outside the package: \<^verbatim>\<open>ansi.ColorFunc\<close> (from a style to
  a function on strings), and the two conversions \<^verbatim>\<open>int(d.Seconds())\<close> and
  \<^verbatim>\<open>int(d.Minutes())\<close>, which the library computes in floating point.
\<close>

record Library =
  ColorFunc :: "string \<Rightarrow> string \<Rightarrow> string"
  intSeconds :: "Duration \<Rightarrow> int"
  intMinutes :: "Duration \<Rightarrow> int"

definition NewColorizer :: "Library \<Rightarrow> bool \<Rightarrow> Colorizer" where
  "NewColorizer lib shouldColor' =
     (if \<not> shouldColor' then
        \<lparr>headingColorizer = (\<lambda>s. s), successColorizer = (\<lambda>s. s), failureColorizer = (\<lambda>s. s),
         exitColorizer = (\<lambda>s. s), excludeColorizer = (\<lambda>s. s), microsecondColorizer = (\<lambda>s. s),
         millisecondColorizer = (\<lambda>s. s), secondColorizer = (\<lambda>s. s), minuteColorizer = (\<lambda>s. s),
         defaultColorizer = (\<lambda>s. s)\<rparr>
      else
        \<lparr>headingColorizer = ColorFunc lib ''yellow+bh'',
         successColorizer = ColorFunc lib ''green+bh'',
         failureColorizer = ColorFunc lib ''red+bh'',
         exitColorizer = ColorFunc lib ''yellow+bh'',
         excludeColorizer = ColorFunc lib ''blue+bh'',
         microsecondColorizer = ColorFunc lib ''cyan+bh'',
         millisecondColorizer = ColorFunc lib ''cyan+bh'',
         secondColorizer = ColorFunc lib ''green+bh'',
         minuteColorizer = ColorFunc lib ''yellow+bh'',
         defaultColorizer = ColorFunc lib ''white+bh''\<rparr>)"

definition Millisecond :: Duration where
  "Millisecond = 1000000"

definition Second :: Duration where
  "Second = 1000000000"

definition Minute :: Duration where
  "Minute = 60000000000"

definition TotalDurationString :: "Library \<Rightarrow> Summary \<Rightarrow> Colorizer \<Rightarrow> string" where
  "TotalDurationString lib s colorizer =
     (let duration = TotalDuration s in
      if duration < Millisecond then
        microsecondColorizer colorizer (Itoa (quo duration 1000) @ [CHR 0xC2, CHR 0xB5] @ ''s'')
      else if duration < Second then
        millisecondColorizer colorizer (Itoa (quo duration 1000000) @ ''ms'')
      else if duration < Minute then
        secondColorizer colorizer (Itoa (intSeconds lib duration) @ ''s'')
      else minuteColorizer colorizer (Itoa (intMinutes lib duration) @ ''m''))"

definition prefix :: string where
  "prefix = ''   ''"

definition runSummaryHeader :: string where
  "runSummaryHeader = [CHR 0xE2, CHR 0x9D, CHR 0xAF, CHR 0xE2, CHR 0x9D, CHR 0xAF] @ '' Run Summary''"

definition durationLabel :: string where
  "durationLabel = ''Duration''"

definition unitsLabel :: string where
  "unitsLabel = ''Units''"

definition successLabel :: string where
  "successLabel = ''Succeeded''"

definition failureLabel :: string where
  "failureLabel = ''Failed''"

definition earlyExitLabel :: string where
  "earlyExitLabel = ''Early Exits''"

definition excludeLabel :: string where
  "excludeLabel = ''Excluded''"

definition separator :: string where
  "separator = '': ''"

definition longestLineLength :: "Summary \<Rightarrow> string + int" where
  "longestLineLength s =
     (let lengths = [len durationLabel, len unitsLabel];
          lengths = (if UnitsSucceeded s > 0 then lengths @ [len successLabel] else lengths);
          lengths = (if UnitsFailed s > 0 then lengths @ [len failureLabel] else lengths);
          lengths = (if EarlyExits s > 0 then lengths @ [len earlyExitLabel] else lengths);
          lengths = (if Excluded s > 0 then lengths @ [len excludeLabel] else lengths);
          lengths = map (\<lambda>length. length + len prefix) lengths;
          lengths = map (\<lambda>length. length + len separator) lengths
      in slicesMax lengths)"

definition padding :: "Summary \<Rightarrow> string \<Rightarrow> string + string" where
  "padding s label =
     (case longestLineLength s of
        Inl panic \<Rightarrow> Inl panic
      | Inr longest \<Rightarrow>
          (let labelLength = len prefix + len label + len separator
           in Repeat (padder s) (longest - labelLength)))"

text \<open>
  The functions that write return a panic (left) or the error of the write, if any, with
  the writer as it is afterwards.
\<close>

type_synonym written = "string + (error option \<times> Writer)"

definition writeSummaryHeader :: "Summary \<Rightarrow> Writer \<Rightarrow> string \<Rightarrow> written" where
  "writeSummaryHeader s w val = Inr (ioWrite w (val @ [CHR 0x0A]))"

definition writeSummaryEntry :: "Summary \<Rightarrow> Writer \<Rightarrow> string \<Rightarrow> string \<Rightarrow> written" where
  "writeSummaryEntry s w label val =
     (case padding s label of
        Inl panic \<Rightarrow> Inl panic
      | Inr pad \<Rightarrow> Inr (ioWrite w (prefix @ label @ separator @ pad @ '' '' @ val @ [CHR 0x0A])))"

text \<open>
  \<^verbatim>\<open>if err := step; err != nil { return err }\<close> followed by the rest of the function: the
  rest runs only when the step returned without error (and did not panic).
\<close>

definition orReturn :: "written \<Rightarrow> (Writer \<Rightarrow> written) \<Rightarrow> written" where
  "orReturn step rest =
     (case step of
        Inl panic \<Rightarrow> Inl panic
      | Inr (Some err, w) \<Rightarrow> Inr (Some err, w)
      | Inr (None, w) \<Rightarrow> rest w)"

definition Write :: "Library \<Rightarrow> Summary \<Rightarrow> Writer \<Rightarrow> written" where
  "Write lib s w =
     (let colorizer = NewColorizer lib (summaryShouldColor s) in
      orReturn (writeSummaryHeader s w (headingColorizer colorizer runSummaryHeader)) (\<lambda>w.
      orReturn (writeSummaryEntry s w durationLabel (TotalDurationString lib s colorizer)) (\<lambda>w.
      orReturn (writeSummaryEntry s w unitsLabel (defaultColorizer colorizer (Itoa (TotalUnits s)))) (\<lambda>w.
      orReturn (if UnitsSucceeded s > 0
                then writeSummaryEntry s w successLabel
                       (successColorizer colorizer (Itoa (UnitsSucceeded s)))
                else Inr (None, w)) (\<lambda>w.
      orReturn (if UnitsFailed s > 0
                then writeSummaryEntry s w failureLabel
                       (failureColorizer colorizer (Itoa (UnitsFailed s)))
                else Inr (None, w)) (\<lambda>w.
      orReturn (if EarlyExits s > 0
                then writeSummaryEntry s w earlyExitLabel
                       (exitColorizer colorizer (Itoa (EarlyExits s)))
                else Inr (None, w)) (\<lambda>w.
      orReturn (if Excluded s > 0
                then writeSummaryEntry s w excludeLabel
                       (excludeColorizer colorizer (Itoa (Excluded s)))
                else Inr (None, w)) (\<lambda>w.
      Inr (None, w)))))))))"

definition WriteSummary :: "Library \<Rightarrow> string \<Rightarrow> Report \<Rightarrow> Writer \<Rightarrow> written" where
  "WriteSummary lib envPadder r w =
     orReturn (Inr (ioWrite w [CHR 0x0A])) (\<lambda>w.
     orReturn (Write lib (Summarize envPadder r) w) (\<lambda>w.
     orReturn (Inr (ioWrite w [CHR 0x0A])) (\<lambda>w.
     Inr (None, w))))"

subsection \<open>Rendering never panics\<close>

text \<open>The labels \<^verbatim>\<open>Write\<close> prints for a summary, with the conditions of its branches.\<close>


lemma longestLineLength_cases:
  "longestLineLength s =
     Inr (if EarlyExits s > 0 then 16
          else if UnitsSucceeded s > 0 then 14
          else if UnitsFailed s > 0 \<or> Excluded s > 0 then 13
          else 13)"
  by (simp add: longestLineLength_def Let_def len_def durationLabel_def unitsLabel_def successLabel_def
      failureLabel_def earlyExitLabel_def excludeLabel_def prefix_def separator_def)

lemma label_lengths:
  "len prefix + len durationLabel + len separator = 13"
  "len prefix + len unitsLabel + len separator = 10"
  "len prefix + len successLabel + len separator = 14"
  "len prefix + len failureLabel + len separator = 11"
  "len prefix + len earlyExitLabel + len separator = 16"
  "len prefix + len excludeLabel + len separator = 13"
  by (simp_all add: len_def durationLabel_def unitsLabel_def successLabel_def
      failureLabel_def earlyExitLabel_def excludeLabel_def prefix_def separator_def)

definition printed :: "Summary \<Rightarrow> string \<Rightarrow> bool" where
  "printed s label \<longleftrightarrow>
     label = durationLabel \<or> label = unitsLabel
     \<or> (UnitsSucceeded s > 0 \<and> label = successLabel)
     \<or> (UnitsFailed s > 0 \<and> label = failureLabel)
     \<or> (EarlyExits s > 0 \<and> label = earlyExitLabel)
     \<or> (Excluded s > 0 \<and> label = excludeLabel)"

lemma padding_printed:
  assumes "printed s label"
  shows "\<exists>L. longestLineLength s = Inr L
    \<and> 0 \<le> L - (len prefix + len label + len separator)
    \<and> L - (len prefix + len label + len separator) \<le> 6"
  using assms label_lengths
  by (auto simp: printed_def longestLineLength_cases)

lemma Repeat_small:
  assumes "0 \<le> k" "k \<le> 6" "len p \<le> 2 ^ 60"
  shows "\<not> isl (Repeat p k)"
proof -
  have "0 \<le> len p" by (simp add: len_def)
  then have "len p * k \<le> len p * 6"
    using assms(2) by (rule mult_left_mono [rotated])
  also have "\<dots> \<le> 2 ^ 60 * 6" using assms(3) by simp
  also have "\<dots> \<le> maxInt" by (simp add: maxInt_def)
  finally show ?thesis using assms(1) by (simp add: Repeat_def)
qed

lemma Repeat_not_negative_panic:
  "0 \<le> k \<Longrightarrow> Repeat p k \<noteq> Inl ''strings: negative Repeat count''"
  by (simp add: Repeat_def)

lemma writeSummaryEntry_printed:
  assumes "len (padder s) \<le> 2 ^ 60" "printed s label"
  shows "\<not> isl (writeSummaryEntry s w label v)"
proof -
  from padding_printed [OF assms(2)] obtain L
    where L: "longestLineLength s = Inr L"
      "0 \<le> L - (len prefix + len label + len separator)"
      "L - (len prefix + len label + len separator) \<le> 6" by blast
  from Repeat_small [OF L(2,3) assms(1)] L(1) show ?thesis
    by (auto simp: writeSummaryEntry_def padding_def split: sum.splits)
qed

lemma writeSummaryEntry_printed_not_negative:
  assumes "printed s label"
  shows "writeSummaryEntry s w label v \<noteq> Inl ''strings: negative Repeat count''"
proof -
  from padding_printed [OF assms] obtain L
    where L: "longestLineLength s = Inr L"
      "0 \<le> L - (len prefix + len label + len separator)" by blast
  from Repeat_not_negative_panic [OF L(2), of "padder s"] L(1) show ?thesis
    by (auto simp: writeSummaryEntry_def padding_def split: sum.splits)
qed

lemma orReturn_Inr:
  assumes "\<not> isl step" "\<And>w. \<not> isl (rest w)"
  shows "\<not> isl (orReturn step rest)"
  using assms by (auto simp: orReturn_def split: sum.splits option.splits prod.splits)

lemma orReturn_not_panic:
  assumes "step \<noteq> Inl m" "\<And>w. rest w \<noteq> Inl m"
  shows "orReturn step rest \<noteq> Inl m"
  using assms by (auto simp: orReturn_def split: sum.splits option.splits prod.splits)

lemma Write_returns:
  assumes "len (padder s) \<le> 2 ^ 60"
  shows "\<not> isl (Write lib s w)"
  unfolding Write_def Let_def
  by (intro orReturn_Inr allI)
    (simp_all add: writeSummaryHeader_def printed_def writeSummaryEntry_printed [OF assms])

lemma Write_no_negative_count:
  "Write lib s w \<noteq> Inl ''strings: negative Repeat count''"
  unfolding Write_def Let_def
  by (intro orReturn_not_panic allI)
    (simp_all add: writeSummaryHeader_def printed_def writeSummaryEntry_printed_not_negative)


text \<open>
  C9. The longest line length is computed from exactly the labels that \<^verbatim>\<open>Write\<close> prints
  (Duration and Units always, each of the other four when its counter is positive), so
  for each printed label the repeat count of its padding is not negative, and \<^verbatim>\<open>Write\<close>
  never panics with a negative repeat count. With a padder of at most \<open>2\<^sup>6\<^sup>0\<close> bytes
  (so that six copies of it cannot overflow the length of a string) \<^verbatim>\<open>Write\<close> does not
  panic at all: it returns, with or without a write error.
\<close>

theorem C9_Write_never_panics:
  "(\<exists>L. longestLineLength s = Inr L
      \<and> 0 \<le> L - (len prefix + len durationLabel + len separator)
      \<and> 0 \<le> L - (len prefix + len unitsLabel + len separator)
      \<and> (UnitsSucceeded s > 0 \<longrightarrow> 0 \<le> L - (len prefix + len successLabel + len separator))
      \<and> (UnitsFailed s > 0 \<longrightarrow> 0 \<le> L - (len prefix + len failureLabel + len separator))
      \<and> (EarlyExits s > 0 \<longrightarrow> 0 \<le> L - (len prefix + len earlyExitLabel + len separator))
      \<and> (Excluded s > 0 \<longrightarrow> 0 \<le> L - (len prefix + len excludeLabel + len separator)))
   \<and> Write lib s w \<noteq> Inl ''strings: negative Repeat count''
   \<and> (len (padder s) \<le> 2 ^ 60 \<longrightarrow> (\<exists>r. Write lib s w = Inr r))"
proof -
  have a: "\<exists>L. longestLineLength s = Inr L
      \<and> 0 \<le> L - (len prefix + len durationLabel + len separator)
      \<and> 0 \<le> L - (len prefix + len unitsLabel + len separator)
      \<and> (UnitsSucceeded s > 0 \<longrightarrow> 0 \<le> L - (len prefix + len successLabel + len separator))
      \<and> (UnitsFailed s > 0 \<longrightarrow> 0 \<le> L - (len prefix + len failureLabel + len separator))
      \<and> (EarlyExits s > 0 \<longrightarrow> 0 \<le> L - (len prefix + len earlyExitLabel + len separator))
      \<and> (Excluded s > 0 \<longrightarrow> 0 \<le> L - (len prefix + len excludeLabel + len separator))"
    using label_lengths by (simp add: longestLineLength_cases)
  have b: "Write lib s w \<noteq> Inl ''strings: negative Repeat count''"
    by (rule Write_no_negative_count)
  have c: "len (padder s) \<le> 2 ^ 60 \<longrightarrow> (\<exists>r. Write lib s w = Inr r)"
  proof
    assume "len (padder s) \<le> 2 ^ 60"
    from Write_returns [OF this, of lib w] show "\<exists>r. Write lib s w = Inr r"
      by (cases "Write lib s w") simp_all
  qed
  from a b c show ?thesis by (intro conjI)
qed

theorem C9_Write_never_panics_witness:
  "longestLineLength \<lparr>firstRunStart = Some 0, lastRunEnd = Some 5, padder = '' '',
       TotalUnits = 4, UnitsSucceeded = 1, UnitsFailed = 1, EarlyExits = 1, Excluded = 1,
       summaryShouldColor = False\<rparr> = Inr 16
   \<and> 0 \<le> 16 - (len prefix + len successLabel + len separator)
   \<and> 0 \<le> 16 - (len prefix + len failureLabel + len separator)
   \<and> 0 \<le> 16 - (len prefix + len earlyExitLabel + len separator)
   \<and> 0 \<le> 16 - (len prefix + len excludeLabel + len separator)
   \<and> (\<exists>r. Write \<lparr>ColorFunc = (\<lambda>style s. s), intSeconds = (\<lambda>d. d div 1000000000),
               intMinutes = (\<lambda>d. d div 60000000000)\<rparr>
         \<lparr>firstRunStart = Some 0, lastRunEnd = Some 5, padder = '' '',
          TotalUnits = 4, UnitsSucceeded = 1, UnitsFailed = 1, EarlyExits = 1, Excluded = 1,
          summaryShouldColor = False\<rparr>
         \<lparr>written = [], accepts = None\<rparr> = Inr r)"
proof -
  let ?s = "\<lparr>firstRunStart = Some 0, lastRunEnd = Some 5, padder = '' '',
       TotalUnits = 4, UnitsSucceeded = 1, UnitsFailed = 1, EarlyExits = 1, Excluded = 1,
       summaryShouldColor = False\<rparr>"
  let ?lib = "\<lparr>ColorFunc = (\<lambda>style s. s), intSeconds = (\<lambda>d. d div 1000000000),
               intMinutes = (\<lambda>d. d div 60000000000)\<rparr>"
  let ?w = "\<lparr>written = [], accepts = None\<rparr>"
  note inst = C9_Write_never_panics [of ?s ?lib ?w]
  have h: "UnitsSucceeded ?s > 0" "UnitsFailed ?s > 0" "EarlyExits ?s > 0" "Excluded ?s > 0"
    "len (padder ?s) \<le> 2 ^ 60"
    by (simp_all add: len_def)
  from inst obtain L where L: "longestLineLength ?s = Inr L"
      "UnitsSucceeded ?s > 0 \<longrightarrow> 0 \<le> L - (len prefix + len successLabel + len separator)"
      "UnitsFailed ?s > 0 \<longrightarrow> 0 \<le> L - (len prefix + len failureLabel + len separator)"
      "EarlyExits ?s > 0 \<longrightarrow> 0 \<le> L - (len prefix + len earlyExitLabel + len separator)"
      "Excluded ?s > 0 \<longrightarrow> 0 \<le> L - (len prefix + len excludeLabel + len separator)"
    by blast
  have L16: "longestLineLength ?s = Inr 16"
    by (simp add: longestLineLength_def Let_def len_def durationLabel_def unitsLabel_def
        successLabel_def failureLabel_def earlyExitLabel_def excludeLabel_def prefix_def
        separator_def)
  with L(1) have "L = 16" by simp
  with L h have "0 \<le> 16 - (len prefix + len successLabel + len separator)"
    "0 \<le> 16 - (len prefix + len failureLabel + len separator)"
    "0 \<le> 16 - (len prefix + len earlyExitLabel + len separator)"
    "0 \<le> 16 - (len prefix + len excludeLabel + len separator)"
    by blast+
  moreover from inst have "len (padder ?s) \<le> 2 ^ 60 \<longrightarrow> (\<exists>r. Write ?lib ?s ?w = Inr r)"
    by (rule conjunct2 [THEN conjunct2])
  then have "\<exists>r. Write ?lib ?s ?w = Inr r"
    using h(5) by (rule mp)
  ultimately show ?thesis using L16 by (intro conjI)
qed

subsection \<open>The library sort behind SortRuns\<close>

text \<open>
  \<^verbatim>\<open>slices.SortFunc\<close> is the pattern-defeating quicksort of the Go library
  (\<^verbatim>\<open>pdqsortCmpFunc\<close> with its helpers), which the documentation does not promise to be
  stable. The slice is a list, indices are natural numbers, and \<^verbatim>\<open>cmp(a, b) < 0\<close> is
  \<open>lt cmp a b\<close>.
\<close>

definition lt :: "('a \<Rightarrow> 'a \<Rightarrow> int) \<Rightarrow> 'a \<Rightarrow> 'a \<Rightarrow> bool" where
  "lt cmp x y = (cmp x y < 0)"












text \<open>
  \<^verbatim>\<open>partitionCmpFunc\<close>: its two scans, its loop, and the function. The index \<open>j\<close> of the
  source runs downwards and the loops stop at \<open>i > j\<close>; the model carries \<open>j1 = j + 1\<close>, which
  stays a natural number: \<open>i \<le> j\<close> is \<open>i < j1\<close>, and \<open>data[j]\<close> is \<open>data ! (j1 - 1)\<close>.
\<close>

function scanUp :: "('a \<Rightarrow> 'a \<Rightarrow> int) \<Rightarrow> 'a list \<Rightarrow> nat \<Rightarrow> nat \<Rightarrow> nat \<Rightarrow> nat" where
  "scanUp cmp data a i j1 =
     (if i < j1 \<and> lt cmp (data ! i) (data ! a) then scanUp cmp data a (i + 1) j1 else i)"
  by pat_completeness auto
termination
  by (relation "measure (\<lambda>(cmp, data, a, i, j1). j1 - i)") auto

declare scanUp.simps [simp del]








































text \<open>Where the partitions leave the new bounds: what the termination of the sort needs.\<close>

lemma scanUp_le: "scanUp cmp data a i j1 \<le> max i j1"
  by (induction cmp data a i j1 rule: scanUp.induct) (subst scanUp.simps, auto)









subsection \<open>SortRuns\<close>


subsection \<open>Library: the buffered writer and the CSV writer\<close>























subsection \<open>WriteCSV\<close>



subsection \<open>What WriteCSV writes\<close>





























subsection \<open>The file system and WriteToFile\<close>
























section \<open>Module resolution (package configstack)\<close>

subsection \<open>Modules and module maps\<close>

text \<open>
  A module is known by its path. Of a \<^verbatim>\<open>TerraformModule\<close> the model keeps the path, the
  paths of the modules its \<^verbatim>\<open>Dependencies\<close> point to, and the flag
  \<^verbatim>\<open>AssumeAlreadyApplied\<close>. A \<^verbatim>\<open>TerraformModulesMap\<close> is a list of entries, a key with its
  module; where the source ranges over such a map (in an order Go does not fix) the
  model takes the entries in the order of the list.
\<close>

record TerraformModule =
  Path :: string
  Dependencies :: "string list"
  AssumeAlreadyApplied :: bool

type_synonym TerraformModulesMap = "(string \<times> TerraformModule) list"

definition hasKey :: "TerraformModulesMap \<Rightarrow> string \<Rightarrow> bool" where
  "hasKey m k = (map_of m k \<noteq> None)"

text \<open>\<^verbatim>\<open>m[k] = v\<close>: the entry of an existing key is replaced where it stands.\<close>

fun mapSet :: "TerraformModulesMap \<Rightarrow> string \<Rightarrow> TerraformModule \<Rightarrow> TerraformModulesMap" where
  "mapSet [] k v = [(k, v)]"
| "mapSet ((k', v') # m) k v = (if k' = k then (k, v) # m else (k', v') # mapSet m k v)"

text \<open>
  Modelled from the spec: \<^verbatim>\<open>mergeMaps\<close> is declared outside the source files at hand. The
  spec: "Resolvers merge sets; duplicates by path collapse to the first-seen Unit."
\<close>

definition mergeMaps :: "TerraformModulesMap \<Rightarrow> TerraformModulesMap \<Rightarrow> TerraformModulesMap" where
  "mergeMaps m other = m @ filter (\<lambda>(k, v). \<not> hasKey m k) other"

text \<open>
  Modelled from the spec: \<^verbatim>\<open>getSortedKeys\<close> is declared outside the source files at hand;
  by its name, the keys of the map in ascending order.
\<close>

definition getSortedKeys :: "TerraformModulesMap \<Rightarrow> string list" where
  "getSortedKeys m = sort (remdups (map fst m))"

text \<open>
  Modelled from the spec: the declaration of the constant \<^verbatim>\<open>maxLevelsOfRecursion\<close> is outside
  the source files at hand. The spec: "\<^verbatim>\<open>InfiniteRecursion\<close> when external-dependency
  recursion exceeds a fixed depth (design constant: 1000)."
\<close>

definition maxLevelsOfRecursion :: int where
  "maxLevelsOfRecursion = 1000"

datatype resolveError =
    InfiniteRecursionError int TerraformModulesMap
  | ProcessingModuleError string string

subsection \<open>What resolution takes from outside\<close>

text \<open>
  Resolving the dependencies of a module reads configuration files, and confirming an
  external dependency asks the user. Both are given from outside, and so is cloning the
  options for a module. Each call is recorded as an event, and each answer may depend on
  the events so far.
\<close>

datatype event =
    Resolved string
  | Cloned string
  | Confirmed string string

record Resolver =
  IgnoreExternalDependencies :: bool
  resolveDependenciesForModule ::
    "event list \<Rightarrow> TerraformModule \<Rightarrow> TerraformModulesMap \<Rightarrow> resolveError + TerraformModulesMap"
  CloneWithConfigPath :: "event list \<Rightarrow> string \<Rightarrow> resolveError option"
  confirmShouldApplyExternalDependency ::
    "event list \<Rightarrow> TerraformModule \<Rightarrow> TerraformModule \<Rightarrow> resolveError + bool"

subsection \<open>resolveExternalDependenciesForModules\<close>

text \<open>
  The body of the inner loop, for one external dependency: the result is the error of
  the confirmation, or the dependency as it is entered into \<open>allExternalDependencies\<close>
  (\<open>None\<close> when it is skipped), with the events.
\<close>

definition externalDependencyStep ::
  "Resolver \<Rightarrow> event list \<Rightarrow> TerraformModule \<Rightarrow> TerraformModulesMap \<Rightarrow> TerraformModule
     \<Rightarrow> (resolveError + TerraformModule option) \<times> event list" where
  "externalDependencyStep stack events module modulesToSkip externalDependency =
     (if hasKey modulesToSkip (Path externalDependency) then (Inr None, events)
      else
        let shouldApply = False in
        if \<not> IgnoreExternalDependencies stack then
          (case confirmShouldApplyExternalDependency stack events module externalDependency of
             Inl err \<Rightarrow>
               (Inl err, events @ [Confirmed (Path module) (Path externalDependency)])
           | Inr shouldApply \<Rightarrow>
               (Inr (Some (externalDependency\<lparr>AssumeAlreadyApplied := \<not> shouldApply\<rparr>)),
                events @ [Confirmed (Path module) (Path externalDependency)]))
        else
          (Inr (Some (externalDependency\<lparr>AssumeAlreadyApplied := \<not> shouldApply\<rparr>)), events))"

text \<open>
  The inner loop over \<open>externalDependencies\<close>. The modules are held by pointer, so the flag
  set in an entry shows in \<open>externalDependencies\<close> as well: \<open>seen\<close> are its entries already
  seen, as they are now.
\<close>

fun externalDependenciesLoop ::
  "Resolver \<Rightarrow> event list \<Rightarrow> TerraformModule \<Rightarrow> TerraformModulesMap \<Rightarrow> TerraformModulesMap
     \<Rightarrow> TerraformModulesMap \<Rightarrow> TerraformModulesMap
     \<Rightarrow> (TerraformModulesMap \<times> resolveError + TerraformModulesMap) \<times> event list" where
  "externalDependenciesLoop stack events module modulesToSkip seen [] allExternalDependencies =
     (Inr allExternalDependencies, events)"
| "externalDependenciesLoop stack events module modulesToSkip seen ((key, externalDependency) # rest)
       allExternalDependencies =
     (case externalDependencyStep stack events module modulesToSkip externalDependency of
        (Inl err, events) \<Rightarrow> (Inl (seen @ (key, externalDependency) # rest, err), events)
      | (Inr None, events) \<Rightarrow>
          externalDependenciesLoop stack events module modulesToSkip
            (seen @ [(key, externalDependency)]) rest allExternalDependencies
      | (Inr (Some dependency), events) \<Rightarrow>
          externalDependenciesLoop stack events module modulesToSkip
            (seen @ [(key, dependency)]) rest
            (mapSet allExternalDependencies (Path dependency) dependency))"

text \<open>The outer loop over the sorted keys of \<open>modulesMap\<close>.\<close>

fun modulesLoop ::
  "Resolver \<Rightarrow> event list \<Rightarrow> TerraformModulesMap \<Rightarrow> TerraformModulesMap \<Rightarrow> string list
     \<Rightarrow> TerraformModulesMap
     \<Rightarrow> (TerraformModulesMap \<times> resolveError + TerraformModulesMap) \<times> event list" where
  "modulesLoop stack events modulesMap modulesToSkip [] allExternalDependencies =
     (Inr allExternalDependencies, events)"
| "modulesLoop stack events modulesMap modulesToSkip (key # sortedKeys) allExternalDependencies =
     (case map_of modulesMap key of
        None \<Rightarrow> modulesLoop stack events modulesMap modulesToSkip sortedKeys allExternalDependencies
      | Some module \<Rightarrow>
          (case resolveDependenciesForModule stack events module modulesToSkip of
             Inl err \<Rightarrow> (Inl ([], err), events @ [Resolved (Path module)])
           | Inr externalDependencies \<Rightarrow>
               (let events = events @ [Resolved (Path module)] in
                case CloneWithConfigPath stack events (Path module) of
                  Some err \<Rightarrow> (Inl ([], err), events @ [Cloned (Path module)])
                | None \<Rightarrow>
                    (case externalDependenciesLoop stack (events @ [Cloned (Path module)]) module
                            modulesToSkip [] externalDependencies allExternalDependencies of
                       (Inl failed, events) \<Rightarrow> (Inl failed, events)
                     | (Inr allExternalDependencies, events) \<Rightarrow>
                         modulesLoop stack events modulesMap modulesToSkip sortedKeys
                           allExternalDependencies))))"

function resolveExternalDependenciesForModules ::
  "Resolver \<Rightarrow> event list \<Rightarrow> TerraformModulesMap \<Rightarrow> TerraformModulesMap \<Rightarrow> int
     \<Rightarrow> (TerraformModulesMap \<times> resolveError option) \<times> event list" where
  "resolveExternalDependenciesForModules stack events modulesMap modulesAlreadyProcessed recursionLevel =
     (let allExternalDependencies = [];
          modulesToSkip = mergeMaps modulesMap modulesAlreadyProcessed
      in if recursionLevel > maxLevelsOfRecursion then
           ((allExternalDependencies,
             Some (InfiniteRecursionError maxLevelsOfRecursion modulesToSkip)), events)
         else
           case modulesLoop stack events modulesMap modulesToSkip (getSortedKeys modulesMap)
                  allExternalDependencies of
             (Inl (returned, err), events) \<Rightarrow> ((returned, Some err), events)
           | (Inr allExternalDependencies, events) \<Rightarrow>
               if length allExternalDependencies > 0 then
                 (case resolveExternalDependenciesForModules stack events allExternalDependencies
                         modulesMap (recursionLevel + 1) of
                    ((recursiveDependencies, Some err), events) \<Rightarrow>
                      ((allExternalDependencies, Some err), events)
                  | ((recursiveDependencies, None), events) \<Rightarrow>
                      ((mergeMaps allExternalDependencies recursiveDependencies, None), events))
               else ((allExternalDependencies, None), events))"
  by pat_completeness auto
termination
  by (relation "measure (\<lambda>(stack, events, modulesMap, processed, recursionLevel).
        nat (maxLevelsOfRecursion + 1 - recursionLevel))") auto

declare resolveExternalDependenciesForModules.simps [simp del]

subsection \<open>Properties of the external dependency resolution\<close>

definition isConfirmed :: "event \<Rightarrow> bool" where
  "isConfirmed e = (case e of Confirmed m d \<Rightarrow> True | _ \<Rightarrow> False)"

definition allAssumed :: "TerraformModulesMap \<Rightarrow> bool" where
  "allAssumed m = list_all (\<lambda>(k, u). AssumeAlreadyApplied u) m"

lemma mapSet_allAssumed:
  "allAssumed m \<Longrightarrow> AssumeAlreadyApplied v \<Longrightarrow> allAssumed (mapSet m k v)"
  by (induction m) (auto simp: allAssumed_def)

lemma mergeMaps_allAssumed:
  "allAssumed m \<Longrightarrow> allAssumed other \<Longrightarrow> allAssumed (mergeMaps m other)"
  by (auto simp: allAssumed_def mergeMaps_def list_all_iff)

lemma step_ignore:
  assumes "IgnoreExternalDependencies stack"
  shows "externalDependencyStep stack events module modulesToSkip d =
    (if hasKey modulesToSkip (Path d) then (Inr None, events)
     else (Inr (Some (d\<lparr>AssumeAlreadyApplied := True\<rparr>)), events))"
  using assms by (simp add: externalDependencyStep_def)

lemma externalDependenciesLoop_ignore:
  assumes "IgnoreExternalDependencies stack"
  shows "allAssumed acc \<Longrightarrow>
    \<exists>acc'. externalDependenciesLoop stack events module modulesToSkip seen deps acc = (Inr acc', events)
       \<and> allAssumed acc'"
proof (induction deps arbitrary: seen acc)
  case Nil
  then show ?case by simp
next
  case (Cons e deps)
  obtain key d where e: "e = (key, d)" by (cases e)
  show ?case
  proof (cases "hasKey modulesToSkip (Path d)")
    case True
    with Cons show ?thesis
      by (simp add: e step_ignore [OF assms])
  next
    case False
    have "allAssumed (mapSet acc (Path d) (d\<lparr>AssumeAlreadyApplied := True\<rparr>))"
      using Cons.prems by (intro mapSet_allAssumed) simp_all
    from Cons.IH [OF this] False show ?thesis
      by (simp add: e step_ignore [OF assms])
  qed
qed

lemma modulesLoop_ignore:
  assumes "IgnoreExternalDependencies stack"
  shows "allAssumed acc \<Longrightarrow>
    modulesLoop stack events modulesMap modulesToSkip keys acc = (res, events') \<Longrightarrow>
    filter isConfirmed events' = filter isConfirmed events
    \<and> (case res of Inl (returned, err) \<Rightarrow> returned = [] | Inr acc' \<Rightarrow> allAssumed acc')"
proof (induction keys arbitrary: events acc)
  case Nil
  then show ?case by auto
next
  case (Cons key keys)
  show ?case
  proof (cases "map_of modulesMap key")
    case None
    with Cons show ?thesis by simp
  next
    case (Some module)
    show ?thesis
    proof (cases "resolveDependenciesForModule stack events module modulesToSkip")
      case (Inl err)
      with Some Cons.prems show ?thesis by (auto simp: isConfirmed_def)
    next
      case (Inr deps)
      let ?ev = "events @ [Resolved (Path module)]"
      show ?thesis
      proof (cases "CloneWithConfigPath stack ?ev (Path module)")
        case (Some err)
        with \<open>map_of modulesMap key = Some module\<close> Inr Cons.prems show ?thesis
          by (auto simp: isConfirmed_def Let_def)
      next
        case None
        from externalDependenciesLoop_ignore [OF assms Cons.prems(1),
            of "?ev @ [Cloned (Path module)]" module modulesToSkip "[]" deps]
        obtain acc' where l: "externalDependenciesLoop stack (?ev @ [Cloned (Path module)]) module
            modulesToSkip [] deps acc = (Inr acc', ?ev @ [Cloned (Path module)])" "allAssumed acc'"
          by blast
        from Cons.prems(2) have "modulesLoop stack (?ev @ [Cloned (Path module)]) modulesMap
            modulesToSkip keys acc' = (res, events')"
          using \<open>map_of modulesMap key = Some module\<close> Inr None l(1) by (simp add: Let_def)
        from Cons.IH [OF l(2) this] show ?thesis
          by (simp add: isConfirmed_def)
      qed
    qed
  qed
qed

lemma resolve_ignore:
  "IgnoreExternalDependencies stack \<Longrightarrow>
   resolveExternalDependenciesForModules stack events modulesMap processed level
      = ((result, err), events') \<Longrightarrow>
    allAssumed result \<and> filter isConfirmed events' = filter isConfirmed events"
proof (induction stack events modulesMap processed level arbitrary: result err events'
    rule: resolveExternalDependenciesForModules.induct)
  case (1 stack events modulesMap processed level)
  note ig = "1.prems"(1) and run = "1.prems"(2)
  show ?case
  proof (cases "level > maxLevelsOfRecursion")
    case True
    with run show ?thesis
      by (subst (asm) resolveExternalDependenciesForModules.simps) (auto simp: allAssumed_def)
  next
    case False
    obtain res ev1 where ml: "modulesLoop stack events modulesMap (mergeMaps modulesMap processed)
        (getSortedKeys modulesMap) [] = (res, ev1)"
      by (cases "modulesLoop stack events modulesMap (mergeMaps modulesMap processed)
        (getSortedKeys modulesMap) []")
    have a0: "allAssumed []" by (simp add: allAssumed_def)
    from modulesLoop_ignore [OF ig a0 ml]
    have inv: "filter isConfirmed ev1 = filter isConfirmed events"
      "case res of Inl (returned, err) \<Rightarrow> returned = [] | Inr acc' \<Rightarrow> allAssumed acc'"
      by simp_all
    show ?thesis
    proof (cases res)
      case (Inl p)
      with run False ml inv show ?thesis
        by (subst (asm) resolveExternalDependenciesForModules.simps)
          (auto simp: Let_def allAssumed_def split: prod.splits)
    next
      case (Inr all)
      with inv have aa: "allAssumed all" by simp
      show ?thesis
      proof (cases "length all > 0")
        case False
        with run \<open>\<not> level > maxLevelsOfRecursion\<close> ml Inr inv aa show ?thesis
          by (subst (asm) resolveExternalDependenciesForModules.simps) (auto simp: Let_def)
      next
        case True
        obtain rec e2 ev2 where r: "resolveExternalDependenciesForModules stack ev1 all modulesMap
            (level + 1) = ((rec, e2), ev2)"
          by (cases "resolveExternalDependenciesForModules stack ev1 all modulesMap (level + 1)") auto
        from "1.IH" [OF refl refl \<open>\<not> level > maxLevelsOfRecursion\<close> ml [symmetric] Inr True ig r]
        have ih: "allAssumed rec" "filter isConfirmed ev2 = filter isConfirmed ev1"
          by simp_all
        from run \<open>\<not> level > maxLevelsOfRecursion\<close> ml Inr True r ih inv aa show ?thesis
          by (subst (asm) resolveExternalDependenciesForModules.simps)
            (auto simp: Let_def mergeMaps_allAssumed split: option.splits)
      qed
    qed
  qed
qed


lemma loop_single:
  "externalDependenciesLoop stack events m modulesToSkip seen [(key, d)] acc =
     (case externalDependencyStep stack events m modulesToSkip d of
        (Inl err, events) \<Rightarrow> (Inl (seen @ [(key, d)], err), events)
      | (Inr None, events) \<Rightarrow> (Inr acc, events)
      | (Inr (Some dependency), events) \<Rightarrow>
          (Inr (mapSet acc (Path dependency) dependency), events))"
  by (simp split: prod.splits sum.splits option.splits)

text \<open>
  C7 (as amended). For an external dependency that is not among the modules to skip:
  when \<^verbatim>\<open>IgnoreExternalDependencies\<close> is false the confirmation is asked for (once, for
  the module and this dependency), and with its answer the dependency is entered into
  the result with \<^verbatim>\<open>AssumeAlreadyApplied\<close> true exactly when the answer is false; when
  \<^verbatim>\<open>IgnoreExternalDependencies\<close> is true no confirmation is asked for and the dependency
  is entered with \<^verbatim>\<open>AssumeAlreadyApplied\<close> true. So with \<^verbatim>\<open>IgnoreExternalDependencies\<close>
  every module the resolution returns is assumed applied, and no confirmation is asked
  for at any level.
\<close>

theorem C7_confirm_external:
  "(\<not> hasKey modulesToSkip (Path d) \<and> \<not> IgnoreExternalDependencies stack \<longrightarrow>
      snd (externalDependencyStep stack events m modulesToSkip d)
        = events @ [Confirmed (Path m) (Path d)]
      \<and> (\<forall>answer. confirmShouldApplyExternalDependency stack events m d = Inr answer \<longrightarrow>
            externalDependencyStep stack events m modulesToSkip d
              = (Inr (Some (d\<lparr>AssumeAlreadyApplied := \<not> answer\<rparr>)),
                 events @ [Confirmed (Path m) (Path d)])
            \<and> externalDependenciesLoop stack events m modulesToSkip seen [(key, d)] acc
              = (Inr (mapSet acc (Path d) (d\<lparr>AssumeAlreadyApplied := \<not> answer\<rparr>)),
                 events @ [Confirmed (Path m) (Path d)])))
   \<and> (\<not> hasKey modulesToSkip (Path d) \<and> IgnoreExternalDependencies stack \<longrightarrow>
      externalDependencyStep stack events m modulesToSkip d
        = (Inr (Some (d\<lparr>AssumeAlreadyApplied := True\<rparr>)), events)
      \<and> externalDependenciesLoop stack events m modulesToSkip seen [(key, d)] acc
        = (Inr (mapSet acc (Path d) (d\<lparr>AssumeAlreadyApplied := True\<rparr>)), events))
   \<and> (IgnoreExternalDependencies stack
        \<and> resolveExternalDependenciesForModules stack events modulesMap processed level
            = ((result, err), events') \<longrightarrow>
      allAssumed result \<and> filter isConfirmed events' = filter isConfirmed events)"
proof -
  have a: "\<not> hasKey modulesToSkip (Path d) \<and> \<not> IgnoreExternalDependencies stack \<longrightarrow>
      snd (externalDependencyStep stack events m modulesToSkip d)
        = events @ [Confirmed (Path m) (Path d)]
      \<and> (\<forall>answer. confirmShouldApplyExternalDependency stack events m d = Inr answer \<longrightarrow>
            externalDependencyStep stack events m modulesToSkip d
              = (Inr (Some (d\<lparr>AssumeAlreadyApplied := \<not> answer\<rparr>)),
                 events @ [Confirmed (Path m) (Path d)])
            \<and> externalDependenciesLoop stack events m modulesToSkip seen [(key, d)] acc
              = (Inr (mapSet acc (Path d) (d\<lparr>AssumeAlreadyApplied := \<not> answer\<rparr>)),
                 events @ [Confirmed (Path m) (Path d)]))"
    by (auto simp: loop_single externalDependencyStep_def split: sum.splits)
  have b: "\<not> hasKey modulesToSkip (Path d) \<and> IgnoreExternalDependencies stack \<longrightarrow>
      externalDependencyStep stack events m modulesToSkip d
        = (Inr (Some (d\<lparr>AssumeAlreadyApplied := True\<rparr>)), events)
      \<and> externalDependenciesLoop stack events m modulesToSkip seen [(key, d)] acc
        = (Inr (mapSet acc (Path d) (d\<lparr>AssumeAlreadyApplied := True\<rparr>)), events)"
    by (simp add: loop_single step_ignore)
  have c: "IgnoreExternalDependencies stack
        \<and> resolveExternalDependenciesForModules stack events modulesMap processed level
            = ((result, err), events') \<longrightarrow>
      allAssumed result \<and> filter isConfirmed events' = filter isConfirmed events"
    using resolve_ignore by blast
  from a b c show ?thesis by (intro conjI)
qed

definition exampleStack :: "bool \<Rightarrow> bool \<Rightarrow> Resolver" where
  "exampleStack ignore answer =
     \<lparr>IgnoreExternalDependencies = ignore,
      resolveDependenciesForModule = (\<lambda>events module modulesToSkip.
        if Path module = ''/work/a''
        then Inr [(''/ext/b'', \<lparr>Path = ''/ext/b'', Dependencies = [], AssumeAlreadyApplied = False\<rparr>)]
        else Inr []),
      CloneWithConfigPath = (\<lambda>events path. None),
      confirmShouldApplyExternalDependency = (\<lambda>events module dependency. Inr answer)\<rparr>"

theorem C7_confirm_external_witness:
  "externalDependencyStep (exampleStack False False) []
       \<lparr>Path = ''/work/a'', Dependencies = [''/ext/b''], AssumeAlreadyApplied = False\<rparr> []
       \<lparr>Path = ''/ext/b'', Dependencies = [], AssumeAlreadyApplied = False\<rparr>
     = (Inr (Some \<lparr>Path = ''/ext/b'', Dependencies = [], AssumeAlreadyApplied = True\<rparr>),
        [Confirmed ''/work/a'' ''/ext/b''])
   \<and> externalDependencyStep (exampleStack True True) []
       \<lparr>Path = ''/work/a'', Dependencies = [''/ext/b''], AssumeAlreadyApplied = False\<rparr> []
       \<lparr>Path = ''/ext/b'', Dependencies = [], AssumeAlreadyApplied = False\<rparr>
     = (Inr (Some \<lparr>Path = ''/ext/b'', Dependencies = [], AssumeAlreadyApplied = True\<rparr>), [])
   \<and> allAssumed (fst (fst (resolveExternalDependenciesForModules (exampleStack True True) []
       [(''/work/a'', \<lparr>Path = ''/work/a'', Dependencies = [''/ext/b''],
          AssumeAlreadyApplied = False\<rparr>)] [] 0)))"
proof -
  let ?a = "\<lparr>Path = ''/work/a'', Dependencies = [''/ext/b''], AssumeAlreadyApplied = False\<rparr>"
  let ?b = "\<lparr>Path = ''/ext/b'', Dependencies = [], AssumeAlreadyApplied = False\<rparr>"
  let ?r = "resolveExternalDependenciesForModules (exampleStack True True) [] [(''/work/a'', ?a)] [] 0"
  note t1 = C7_confirm_external [of "[]" ?b "exampleStack False False" "[]" ?a]
  note t2 = C7_confirm_external [of "[]" ?b "exampleStack True True" "[]" ?a _ _ _
      "[(''/work/a'', ?a)]" "[]" 0 "fst (fst ?r)" "snd (fst ?r)" "snd ?r"]
  have h1: "\<not> hasKey [] (Path ?b) \<and> \<not> IgnoreExternalDependencies (exampleStack False False)"
    "confirmShouldApplyExternalDependency (exampleStack False False) [] ?a ?b = Inr False"
    by (simp_all add: hasKey_def exampleStack_def)
  have h2: "\<not> hasKey [] (Path ?b) \<and> IgnoreExternalDependencies (exampleStack True True)"
    by (simp add: hasKey_def exampleStack_def)
  have h3: "IgnoreExternalDependencies (exampleStack True True)
      \<and> ?r = ((fst (fst ?r), snd (fst ?r)), snd ?r)"
    by (simp add: exampleStack_def)
  from t1 h1 have "externalDependencyStep (exampleStack False False) [] ?a [] ?b
     = (Inr (Some (?b\<lparr>AssumeAlreadyApplied := \<not> False\<rparr>)), [] @ [Confirmed (Path ?a) (Path ?b)])"
    by blast
  moreover from t2 h2 have "externalDependencyStep (exampleStack True True) [] ?a [] ?b
     = (Inr (Some (?b\<lparr>AssumeAlreadyApplied := True\<rparr>)), [])"
    by blast
  moreover from t2 h3 have "allAssumed (fst (fst ?r))"
    by blast
  ultimately show ?thesis by simp
qed

text \<open>
  C7 as stated fails where \<^verbatim>\<open>IgnoreExternalDependencies\<close> is true: the external dependency
  is not included as a unit to run but entered with \<^verbatim>\<open>AssumeAlreadyApplied\<close> true.
\<close>

theorem C7_ignore_counterexample:
  "IgnoreExternalDependencies (exampleStack True True)
   \<and> resolveExternalDependenciesForModules (exampleStack True True) []
       [(''/work/a'', \<lparr>Path = ''/work/a'', Dependencies = [''/ext/b''],
          AssumeAlreadyApplied = False\<rparr>)] [] 0
     = (([(''/ext/b'', \<lparr>Path = ''/ext/b'', Dependencies = [], AssumeAlreadyApplied = True\<rparr>)],
         None),
        [Resolved ''/work/a'', Cloned ''/work/a'', Resolved ''/ext/b'', Cloned ''/ext/b''])"
  by code_simp

text \<open>
  C8. A call whose recursion level exceeds \<^verbatim>\<open>maxLevelsOfRecursion\<close> (1000) returns the
  \<^verbatim>\<open>InfiniteRecursion\<close> error with an empty map and without any further event: nothing is
  resolved and nothing is asked. A call that receives an error from its recursive call
  returns that error, so the error reaches the first call of the chain.
\<close>

theorem C8_infinite_recursion:
  "(level > maxLevelsOfRecursion \<longrightarrow>
      resolveExternalDependenciesForModules stack events modulesMap processed level
        = (([], Some (InfiniteRecursionError 1000 (mergeMaps modulesMap processed))), events))
   \<and> (\<not> level > maxLevelsOfRecursion
        \<and> modulesLoop stack events modulesMap (mergeMaps modulesMap processed)
              (getSortedKeys modulesMap) [] = (Inr found, events1)
        \<and> found \<noteq> []
        \<and> resolveExternalDependenciesForModules stack events1 found modulesMap (level + 1)
              = ((deeper, Some err), events2) \<longrightarrow>
      resolveExternalDependenciesForModules stack events modulesMap processed level
        = ((found, Some err), events2))
   \<and> maxLevelsOfRecursion = 1000"
proof -
  have a: "level > maxLevelsOfRecursion \<longrightarrow>
      resolveExternalDependenciesForModules stack events modulesMap processed level
        = (([], Some (InfiniteRecursionError 1000 (mergeMaps modulesMap processed))), events)"
    by (subst resolveExternalDependenciesForModules.simps) (simp add: maxLevelsOfRecursion_def)
  have b: "\<not> level > maxLevelsOfRecursion
        \<and> modulesLoop stack events modulesMap (mergeMaps modulesMap processed)
              (getSortedKeys modulesMap) [] = (Inr found, events1)
        \<and> found \<noteq> []
        \<and> resolveExternalDependenciesForModules stack events1 found modulesMap (level + 1)
              = ((deeper, Some err), events2) \<longrightarrow>
      resolveExternalDependenciesForModules stack events modulesMap processed level
        = ((found, Some err), events2)"
    by (subst resolveExternalDependenciesForModules.simps) (simp add: Let_def)
  from a b show ?thesis by (simp add: maxLevelsOfRecursion_def)
qed

theorem C8_infinite_recursion_witness:
  "resolveExternalDependenciesForModules (exampleStack True True) []
       [(''/ext/b'', \<lparr>Path = ''/ext/b'', Dependencies = [], AssumeAlreadyApplied = True\<rparr>)]
       [(''/work/a'', \<lparr>Path = ''/work/a'', Dependencies = [''/ext/b''],
          AssumeAlreadyApplied = False\<rparr>)] 1001
     = (([], Some (InfiniteRecursionError 1000
          ([(''/ext/b'', \<lparr>Path = ''/ext/b'', Dependencies = [], AssumeAlreadyApplied = True\<rparr>),
            (''/work/a'', \<lparr>Path = ''/work/a'', Dependencies = [''/ext/b''],
              AssumeAlreadyApplied = False\<rparr>)]))), [])
   \<and> snd (fst (resolveExternalDependenciesForModules (exampleStack True True) []
       [(''/work/a'', \<lparr>Path = ''/work/a'', Dependencies = [''/ext/b''],
          AssumeAlreadyApplied = False\<rparr>)] [] 1000))
     = Some (InfiniteRecursionError 1000
          ([(''/ext/b'', \<lparr>Path = ''/ext/b'', Dependencies = [], AssumeAlreadyApplied = True\<rparr>),
            (''/work/a'', \<lparr>Path = ''/work/a'', Dependencies = [''/ext/b''],
              AssumeAlreadyApplied = False\<rparr>)]))"
proof -
  let ?a = "\<lparr>Path = ''/work/a'', Dependencies = [''/ext/b''], AssumeAlreadyApplied = False\<rparr>"
  let ?b = "\<lparr>Path = ''/ext/b'', Dependencies = [], AssumeAlreadyApplied = True\<rparr>"
  let ?s = "exampleStack True True"
  let ?ev = "[Resolved ''/work/a'', Cloned ''/work/a'']"
  let ?e = "InfiniteRecursionError 1000 [(''/ext/b'', ?b), (''/work/a'', ?a)]"
  have m: "mergeMaps [(''/ext/b'', ?b)] [(''/work/a'', ?a)] = [(''/ext/b'', ?b), (''/work/a'', ?a)]"
    by (simp add: mergeMaps_def hasKey_def)
  have deep: "resolveExternalDependenciesForModules ?s ev [(''/ext/b'', ?b)] [(''/work/a'', ?a)] 1001
      = (([], Some ?e), ev)" for ev
    using C8_infinite_recursion [of 1001 ?s ev "[(''/ext/b'', ?b)]" "[(''/work/a'', ?a)]"] m
    by (simp add: maxLevelsOfRecursion_def)
  have loop: "modulesLoop ?s [] [(''/work/a'', ?a)] (mergeMaps [(''/work/a'', ?a)] [])
      (getSortedKeys [(''/work/a'', ?a)]) [] = (Inr [(''/ext/b'', ?b)], ?ev)"
    by code_simp
  have "\<not> 1000 > maxLevelsOfRecursion
        \<and> modulesLoop ?s [] [(''/work/a'', ?a)] (mergeMaps [(''/work/a'', ?a)] [])
              (getSortedKeys [(''/work/a'', ?a)]) [] = (Inr [(''/ext/b'', ?b)], ?ev)
        \<and> [(''/ext/b'', ?b)] \<noteq> []
        \<and> resolveExternalDependenciesForModules ?s ?ev [(''/ext/b'', ?b)] [(''/work/a'', ?a)]
              (1000 + 1) = (([], Some ?e), ?ev)"
    using loop deep [of ?ev] by (simp add: maxLevelsOfRecursion_def)
  with C8_infinite_recursion [of 1000 ?s "[]" "[(''/work/a'', ?a)]" "[]" "[(''/ext/b'', ?b)]" ?ev
      "[]" ?e ?ev]
  have "resolveExternalDependenciesForModules ?s [] [(''/work/a'', ?a)] [] 1000
      = (([(''/ext/b'', ?b)], Some ?e), ?ev)"
    by blast
  with deep [of "[]"] show ?thesis by simp
qed

end
